theory Spec2Isabelle
  imports Main
begin

section \<open>The line-range reader \<^verbatim>\<open>read_lines.py\<close>\<close>

text \<open>
  The program prints a contiguous range of the lines of a text file. It consists of the
  function \<^verbatim>\<open>read_lines(filepath, start_line, num_lines)\<close> and of the script body run
  under \<^verbatim>\<open>__main__\<close>. What either of them does beyond computing values is made
  explicit here: the text written to standard output is a string that is passed in and
  returned extended, an exception that leaves a call is a value of the result, and the
  files are an argument.
\<close>

subsection \<open>Exceptions and results\<close>

text \<open>
  The exception classes that can occur: the first five from \<^verbatim>\<open>open\<close> and
  \<^verbatim>\<open>readlines\<close> (\<open>OSError\<close> stands for the operating-system errors that are not
  listed by name), \<^verbatim>\<open>IndexError\<close> from a subscript out of range and
  \<^verbatim>\<open>ValueError\<close> from \<^verbatim>\<open>int\<close>. The one handler of the program names
  \<^verbatim>\<open>FileNotFoundError\<close>, a class without subclasses, so it takes an exception exactly
  when the exception is that constructor.
\<close>

datatype exn =
    FileNotFoundError
  | PermissionError
  | IsADirectoryError
  | UnicodeDecodeError
  | OSError
  | IndexError
  | ValueError

text \<open>A call either returns (the Python functions here return \<^verbatim>\<open>None\<close>) or raises.\<close>

datatype outcome = Returned | Raised exn

text \<open>
  What \<^verbatim>\<open>open(filepath, 'r')\<close> followed by \<^verbatim>\<open>f.readlines()\<close> yields for a path:
  the list of the lines of the file, each with its terminator when it has one, or the
  exception raised. A path that names no file is \<open>Unreadable FileNotFoundError\<close>.
\<close>

datatype file_read = Readable "string list" | Unreadable exn

type_synonym filesystem = "string \<Rightarrow> file_read"

subsection \<open>Built-in operations\<close>

text \<open>
  \<^verbatim>\<open>print(s, end=e)\<close> appends \<open>s\<close> and then \<open>e\<close> to the standard output; without
  \<^verbatim>\<open>end\<close> the terminator is a newline.
\<close>

definition newline :: string where
  "newline = [CHR 0x0A]"

definition print :: "string \<Rightarrow> string \<Rightarrow> string \<Rightarrow> string" where
  "print out s e = out @ s @ e"

text \<open>
  The text an f-string puts for an integer: its decimal digits, after a minus sign when it
  is negative.
\<close>

definition digit :: "nat \<Rightarrow> char" where
  "digit d = ''0123456789'' ! d"

fun digits :: "nat \<Rightarrow> string" where
  "digits n = (if n < 10 then [digit n] else digits (n div 10) @ [digit (n mod 10)])"

definition str :: "int \<Rightarrow> string" where
  "str i = (if i < 0 then CHR ''-'' # digits (nat (- i)) else digits (nat i))"

text \<open>
  A subscript \<^verbatim>\<open>xs[i]\<close>: an index from \<open>0\<close> counts from the front, a negative one
  from the end, and an index outside \<open>- len(xs) .. len(xs) - 1\<close> raises.
\<close>

definition subscript :: "'a list \<Rightarrow> int \<Rightarrow> exn + 'a" where
  "subscript xs i =
     (if 0 \<le> i then
        (if i < int (length xs) then Inr (xs ! nat i) else Inl IndexError)
      else
        (if - int (length xs) \<le> i then Inr (xs ! nat (int (length xs) + i))
         else Inl IndexError))"

subsection \<open>The function \<^verbatim>\<open>read_lines\<close>\<close>

text \<open>
  The loop \<^verbatim>\<open>for i in range(start, stop): print(f"{lines[i]}", end='')\<close>, with
  \<open>i\<close> the next index. The subscript is evaluated before anything is printed, so an
  \<^verbatim>\<open>IndexError\<close> leaves the output as the earlier iterations made it.
\<close>

function print_loop :: "string list \<Rightarrow> int \<Rightarrow> int \<Rightarrow> string \<Rightarrow> string \<times> outcome" where
  "print_loop lines i stop out =
     (if i < stop then
        (case subscript lines i of
           Inl e \<Rightarrow> (out, Raised e)
         | Inr line \<Rightarrow> print_loop lines (i + 1) stop (print out line []))
      else (out, Returned))"
  by pat_completeness auto
termination
  by (relation "measure (\<lambda>(lines, i, stop, out). nat (stop - i))") auto

declare print_loop.simps [simp del]
declare digits.simps [simp del]

text \<open>The body of the \<^verbatim>\<open>try\<close> statement.\<close>

definition read_lines_body :: "filesystem \<Rightarrow> string \<Rightarrow> int \<Rightarrow> int \<Rightarrow> string \<Rightarrow> string \<times> outcome" where
  "read_lines_body fs filepath start_line num_lines out =
     (case fs filepath of
        Unreadable e \<Rightarrow> (out, Raised e)
      | Readable lines \<Rightarrow>
          (let start_index = start_line - 1;
               end_index = start_index + num_lines
           in if start_index \<ge> int (length lines) then
                (print out (''Start line '' @ str start_line @ '' is beyond file length.'') newline,
                 Returned)
              else print_loop lines start_index (min end_index (int (length lines))) out))"

text \<open>
  The whole function: the handler \<^verbatim>\<open>except FileNotFoundError\<close> takes that one
  exception, wherever in the body it was raised, and every other one leaves the call.
\<close>

definition read_lines :: "filesystem \<Rightarrow> string \<Rightarrow> int \<Rightarrow> int \<Rightarrow> string \<Rightarrow> string \<times> outcome" where
  "read_lines fs filepath start_line num_lines out =
     (case read_lines_body fs filepath start_line num_lines out of
        (out', Raised e) \<Rightarrow>
          (if e = FileNotFoundError then
             (print out' (''File '' @ filepath @ '' not found.'') newline, Returned)
           else (out', Raised e))
      | (out', Returned) \<Rightarrow> (out', Returned))"

subsection \<open>The script\<close>

text \<open>
  The script body, on the argument vector \<^verbatim>\<open>sys.argv\<close> (the program name first). The
  built-in \<^verbatim>\<open>int\<close> is the parameter \<open>to_int\<close>, with \<open>None\<close> where it raises
  \<^verbatim>\<open>ValueError\<close>. The arguments of the call are evaluated from left to right.
\<close>

definition usage :: string where
  "usage = ''Usage: python read_lines.py <filepath> <start_line> <num_lines>''"

definition main :: "(string \<Rightarrow> int option) \<Rightarrow> filesystem \<Rightarrow> string list \<Rightarrow> string \<Rightarrow> string \<times> outcome" where
  "main to_int fs argv out =
     (if length argv < 3 then (print out usage newline, Returned)
      else
        (case subscript argv 1 of
           Inl e \<Rightarrow> (out, Raised e)
         | Inr filepath \<Rightarrow>
        (case subscript argv 2 of
           Inl e \<Rightarrow> (out, Raised e)
         | Inr a2 \<Rightarrow>
        (case to_int a2 of
           None \<Rightarrow> (out, Raised ValueError)
         | Some start_line \<Rightarrow>
        (case subscript argv 3 of
           Inl e \<Rightarrow> (out, Raised e)
         | Inr a3 \<Rightarrow>
        (case to_int a3 of
           None \<Rightarrow> (out, Raised ValueError)
         | Some num_lines \<Rightarrow> read_lines fs filepath start_line num_lines out))))))"

subsection \<open>Sample inputs\<close>

text \<open>
  One reading of numerals for the parameter \<open>to_int\<close>: an optional sign and then one or
  more decimal digits. Everything else is \<open>None\<close>.
\<close>

definition digit_val :: "char \<Rightarrow> nat option" where
  "digit_val c =
     (if c \<in> set ''0123456789'' then Some (of_char c - of_char CHR ''0'') else None)"

fun number :: "string \<Rightarrow> nat \<Rightarrow> nat option" where
  "number [] acc = Some acc"
| "number (c # cs) acc =
     (case digit_val c of None \<Rightarrow> None | Some d \<Rightarrow> number cs (10 * acc + d))"

definition decimal :: "string \<Rightarrow> int option" where
  "decimal s =
     (case s of
        [] \<Rightarrow> None
      | c # cs \<Rightarrow>
          (if c = CHR ''-'' then
             (if cs = [] then None else map_option (\<lambda>n. - int n) (number cs 0))
           else if c = CHR ''+'' then
             (if cs = [] then None else map_option int (number cs 0))
           else map_option int (number s 0)))"

text \<open>
  A file system with the three-line file of the worked examples, an empty file, a file
  that may not be read, and nothing else.
\<close>

definition example_fs :: filesystem where
  "example_fs p =
     (if p = ''a.txt'' then Readable [''one\<newline>'', ''two\<newline>'', ''three\<newline>'']
      else if p = ''empty.txt'' then Readable []
      else if p = ''locked.txt'' then Unreadable PermissionError
      else Unreadable FileNotFoundError)"

section \<open>Properties\<close>

subsection \<open>Digits, subscripts and the loop\<close>

lemma digits_small: "n < 10 \<Longrightarrow> digits n = [digit n]"
  by (simp add: digits.simps [of n])

lemma subscript_front:
  "0 \<le> i \<Longrightarrow> i < int (length xs) \<Longrightarrow> subscript xs i = Inr (xs ! nat i)"
  by (simp add: subscript_def)

lemma subscript_back:
  "i < 0 \<Longrightarrow> - int (length xs) \<le> i \<Longrightarrow> subscript xs i = Inr (xs ! nat (int (length xs) + i))"
  by (simp add: subscript_def)

lemma take_drop_step:
  assumes "k < length xs" "0 < n"
  shows "take n (drop k xs) = xs ! k # take (n - 1) (drop (Suc k) xs)"
proof -
  have "drop k xs = xs ! k # drop (Suc k) xs"
    using assms(1) by (simp add: Cons_nth_drop_Suc)
  moreover obtain m where "n = Suc m"
    using assms(2) by (cases n) auto
  ultimately show ?thesis by simp
qed

lemma print_loop_front:
  "0 \<le> i \<Longrightarrow> stop \<le> int (length lines) \<Longrightarrow>
   print_loop lines i stop out =
     (out @ concat (take (nat (stop - i)) (drop (nat i) lines)), Returned)"
proof (induction lines i stop out rule: print_loop.induct)
  case (1 lines i stop out)
  show ?case
  proof (cases "i < stop")
    case False
    then show ?thesis by (simp add: print_loop.simps [of lines i stop out])
  next
    case True
    with "1.prems" have sub: "subscript lines i = Inr (lines ! nat i)"
      by (simp add: subscript_front)
    have step: "take (nat (stop - i)) (drop (nat i) lines) =
        lines ! nat i # take (nat (stop - (i + 1))) (drop (nat (i + 1)) lines)"
    proof -
      have "nat i < length lines" "0 < nat (stop - i)"
        using True "1.prems" by auto
      from take_drop_step [OF this]
      have "take (nat (stop - i)) (drop (nat i) lines) =
          lines ! nat i # take (nat (stop - i) - 1) (drop (Suc (nat i)) lines)" .
      moreover have "nat (stop - i) - 1 = nat (stop - (i + 1))" by simp
      moreover have "Suc (nat i) = nat (i + 1)" using "1.prems" by simp
      ultimately show ?thesis by simp
    qed
    have "print_loop lines i stop out = print_loop lines (i + 1) stop (print out (lines ! nat i) [])"
      using True sub by (simp add: print_loop.simps [of lines i stop out])
    also have "\<dots> = (print out (lines ! nat i) [] @
        concat (take (nat (stop - (i + 1))) (drop (nat (i + 1)) lines)), Returned)"
      using "1.IH" [OF True sub] "1.prems" by simp
    finally show ?thesis by (simp add: step print_def)
  qed
qed

lemma print_loop_back:
  "- int (length lines) \<le> i \<Longrightarrow> stop \<le> 0 \<Longrightarrow>
   print_loop lines i stop out =
     (out @ concat (take (nat (stop - i)) (drop (nat (int (length lines) + i)) lines)), Returned)"
proof (induction lines i stop out rule: print_loop.induct)
  case (1 lines i stop out)
  show ?case
  proof (cases "i < stop")
    case False
    then show ?thesis by (simp add: print_loop.simps [of lines i stop out])
  next
    case True
    with "1.prems" have sub: "subscript lines i = Inr (lines ! nat (int (length lines) + i))"
      by (simp add: subscript_back)
    have step: "take (nat (stop - i)) (drop (nat (int (length lines) + i)) lines) =
        lines ! nat (int (length lines) + i) #
        take (nat (stop - (i + 1))) (drop (nat (int (length lines) + (i + 1))) lines)"
    proof -
      have "nat (int (length lines) + i) < length lines" "0 < nat (stop - i)"
        using True "1.prems" by auto
      from take_drop_step [OF this]
      have "take (nat (stop - i)) (drop (nat (int (length lines) + i)) lines) =
          lines ! nat (int (length lines) + i) #
          take (nat (stop - i) - 1) (drop (Suc (nat (int (length lines) + i))) lines)" .
      moreover have "nat (stop - i) - 1 = nat (stop - (i + 1))" by simp
      moreover have "Suc (nat (int (length lines) + i)) = nat (int (length lines) + (i + 1))"
        using "1.prems" by simp
      ultimately show ?thesis by simp
    qed
    have "print_loop lines i stop out =
        print_loop lines (i + 1) stop (print out (lines ! nat (int (length lines) + i)) [])"
      using True sub by (simp add: print_loop.simps [of lines i stop out])
    also have "\<dots> = (print out (lines ! nat (int (length lines) + i)) [] @
        concat (take (nat (stop - (i + 1))) (drop (nat (int (length lines) + (i + 1))) lines)),
        Returned)"
      using "1.IH" [OF True sub] "1.prems" by simp
    finally show ?thesis by (simp add: step print_def)
  qed
qed

lemma print_loop_split:
  "i \<le> m \<Longrightarrow> m \<le> stop \<Longrightarrow>
   print_loop lines i stop out =
     (case print_loop lines i m out of
        (out', Returned) \<Rightarrow> print_loop lines m stop out'
      | (out', Raised e) \<Rightarrow> (out', Raised e))"
proof (induction lines i m out rule: print_loop.induct)
  case (1 lines i m out)
  show ?case
  proof (cases "i < m")
    case False
    with "1.prems" have "i = m" by simp
    then show ?thesis by (simp add: print_loop.simps [of lines m m out])
  next
    case True
    show ?thesis
    proof (cases "subscript lines i")
      case (Inl e)
      with True "1.prems" show ?thesis
        by (simp add: print_loop.simps [of lines i stop out] print_loop.simps [of lines i m out])
    next
      case (Inr line)
      with True "1.prems" "1.IH" [OF True Inr] show ?thesis
        by (simp add: print_loop.simps [of lines i stop out] print_loop.simps [of lines i m out])
    qed
  qed
qed


lemma subscript_raises:
  "subscript xs i = Inl e \<Longrightarrow> e = IndexError"
  by (auto simp: subscript_def split: if_splits)

lemma print_loop_raises:
  "print_loop lines i stop out = (out', Raised e) \<Longrightarrow> e = IndexError"
proof (induction lines i stop out rule: print_loop.induct)
  case (1 lines i stop out)
  show ?case
  proof (cases "i < stop")
    case False
    with "1.prems" show ?thesis by (simp add: print_loop.simps [of lines i stop out])
  next
    case True
    show ?thesis
    proof (cases "subscript lines i")
      case (Inl e')
      with True "1.prems" have "e = e'"
        by (simp add: print_loop.simps [of lines i stop out])
      with Inl show ?thesis by (simp add: subscript_raises)
    next
      case (Inr line)
      with True "1.prems" have "print_loop lines (i + 1) stop (print out line []) = (out', Raised e)"
        by (simp add: print_loop.simps [of lines i stop out])
      with "1.IH" [OF True Inr] show ?thesis .
    qed
  qed
qed

subsection \<open>The two branches of \<^verbatim>\<open>read_lines\<close> on a readable file\<close>

text \<open>
  The loop raises nothing but \<^verbatim>\<open>IndexError\<close>, so the handler never takes an exception
  of the loop, and the call ends as the loop does.
\<close>

lemma read_lines_loop:
  assumes "fs path = Readable lines" "s - 1 < int (length lines)"
  shows "read_lines fs path s c out =
     print_loop lines (s - 1) (min (s - 1 + c) (int (length lines))) out"
proof (cases "print_loop lines (s - 1) (min (s - 1 + c) (int (length lines))) out")
  case (Pair out' r)
  with assms show ?thesis
    by (cases r) (auto simp: read_lines_def read_lines_body_def Let_def dest: print_loop_raises)
qed

lemma read_lines_beyond:
  assumes "fs path = Readable lines" "int (length lines) \<le> s - 1"
  shows "read_lines fs path s c out =
     (out @ ''Start line '' @ str s @ '' is beyond file length.'' @ newline, Returned)"
  using assms by (simp add: read_lines_def read_lines_body_def Let_def print_def)

lemma take_clip:
  assumes "0 \<le> c" "k \<le> int (length xs)" "0 \<le> k"
  shows "take (nat (min (k + c) (int (length xs)) - k)) (drop (nat k) xs) =
     take (nat c) (drop (nat k) xs)"
proof (cases "k + c \<le> int (length xs)")
  case True
  then show ?thesis by (simp add: min_def)
next
  case False
  then have "length (drop (nat k) xs) \<le> nat c" using assms by simp
  moreover have "nat (min (k + c) (int (length xs)) - k) = length (drop (nat k) xs)"
    using False assms by (simp add: min_def nat_diff_distrib)
  ultimately show ?thesis by simp
qed

subsection \<open>A start line inside the file\<close>

text \<open>
  C1. For a file with \<open>N\<close> lines, a start line \<open>s\<close> with \<open>1 \<le> s \<le> N\<close> and a count
  \<open>c \<ge> 0\<close>, \<^verbatim>\<open>read_lines(path, s, c)\<close> returns normally after writing the lines
  \<open>take c (drop (s - 1) lines)\<close>, each exactly as stored and with nothing between them.
  These are \<open>min c (N - s + 1)\<close> lines, and the \<open>k\<close>-th of them (from \<open>0\<close>) is the line
  of the file at the 1-indexed position \<open>s + k\<close>.
\<close>

theorem read_lines_range:
  assumes "fs path = Readable lines" "1 \<le> s" "s \<le> int (length lines)" "0 \<le> c"
  shows "read_lines fs path s c out =
           (out @ concat (take (nat c) (drop (nat (s - 1)) lines)), Returned)
       \<and> int (length (take (nat c) (drop (nat (s - 1)) lines))) =
           min c (int (length lines) - s + 1)
       \<and> (\<forall>k < length (take (nat c) (drop (nat (s - 1)) lines)).
             take (nat c) (drop (nat (s - 1)) lines) ! k = lines ! (nat (s - 1) + k))"
proof (intro conjI)
  have "read_lines fs path s c out =
      print_loop lines (s - 1) (min (s - 1 + c) (int (length lines))) out"
    using assms by (simp add: read_lines_loop)
  also have "\<dots> = (out @ concat (take (nat (min (s - 1 + c) (int (length lines)) - (s - 1)))
      (drop (nat (s - 1)) lines)), Returned)"
    using assms by (simp add: print_loop_front)
  also have "take (nat (min (s - 1 + c) (int (length lines)) - (s - 1))) (drop (nat (s - 1)) lines) =
      take (nat c) (drop (nat (s - 1)) lines)"
    using assms by (simp add: take_clip)
  finally show "read_lines fs path s c out =
      (out @ concat (take (nat c) (drop (nat (s - 1)) lines)), Returned)" .
next
  show "int (length (take (nat c) (drop (nat (s - 1)) lines))) = min c (int (length lines) - s + 1)"
    using assms by (simp add: min_def) linarith
next
  show "\<forall>k < length (take (nat c) (drop (nat (s - 1)) lines)).
      take (nat c) (drop (nat (s - 1)) lines) ! k = lines ! (nat (s - 1) + k)"
    using assms by simp
qed

text \<open>
  The worked example: on the file with the lines \<open>one\<close>, \<open>two\<close>, \<open>three\<close>, the call
  \<^verbatim>\<open>read_lines("a.txt", 2, 2)\<close> writes \<open>two\<close> and \<open>three\<close>.
\<close>

theorem read_lines_range_witness:
  "example_fs ''a.txt'' = Readable [''one\<newline>'', ''two\<newline>'', ''three\<newline>'']
   \<and> (1::int) \<le> 2 \<and> (2::int) \<le> int (length [''one\<newline>'', ''two\<newline>'', ''three\<newline>''])
   \<and> (0::int) \<le> 2
   \<and> read_lines example_fs ''a.txt'' 2 2 [] = (''two\<newline>three\<newline>'', Returned)"
proof -
  have h: "example_fs ''a.txt'' = Readable [''one\<newline>'', ''two\<newline>'', ''three\<newline>'']"
    by (simp add: example_fs_def)
  show ?thesis
    using h read_lines_range [of example_fs "''a.txt''" _ 2 2 "[]", OF h] by simp
qed

subsection \<open>A start line beyond the file\<close>

text \<open>
  C2. For an existing file with \<open>N\<close> lines, a start line \<open>s \<ge> 1\<close> with \<open>s > N\<close> and any
  count, \<^verbatim>\<open>read_lines(path, s, c)\<close> writes the one line
  \<^verbatim>\<open>Start line {s} is beyond file length.\<close> and nothing of the file, and returns
  normally.
\<close>

theorem read_lines_beyond_length:
  assumes "fs path = Readable lines" "1 \<le> s" "int (length lines) < s"
  shows "read_lines fs path s c out =
     (out @ ''Start line '' @ str s @ '' is beyond file length.'' @ newline, Returned)"
  using assms by (simp add: read_lines_beyond)

theorem read_lines_beyond_length_witness:
  "example_fs ''a.txt'' = Readable [''one\<newline>'', ''two\<newline>'', ''three\<newline>'']
   \<and> (1::int) \<le> 5 \<and> int (length [''one\<newline>'', ''two\<newline>'', ''three\<newline>'']) < 5
   \<and> read_lines example_fs ''a.txt'' 5 1 [] =
       (''Start line 5 is beyond file length.\<newline>'', Returned)"
proof -
  have h: "example_fs ''a.txt'' = Readable [''one\<newline>'', ''two\<newline>'', ''three\<newline>'']"
    by (simp add: example_fs_def)
  show ?thesis
    using h read_lines_beyond_length [of example_fs "''a.txt''" _ 5 1 "[]", OF h] by (simp add: str_def digits_small digit_def newline_def)
qed

subsection \<open>A file that cannot be read\<close>

lemma read_lines_unreadable:
  "fs path = Unreadable e \<Longrightarrow>
   read_lines fs path s c out =
     (if e = FileNotFoundError then (out @ ''File '' @ path @ '' not found.'' @ newline, Returned)
      else (out, Raised e))"
  by (simp add: read_lines_def read_lines_body_def print_def)

text \<open>
  C3. For a path that names no existing file (\<^verbatim>\<open>open\<close> raises
  \<^verbatim>\<open>FileNotFoundError\<close>) and all integer arguments, \<^verbatim>\<open>read_lines(path, s, c)\<close>
  writes the one line \<^verbatim>\<open>File {path} not found.\<close>, nothing of any file, and returns
  normally instead of raising.
\<close>

theorem read_lines_not_found:
  assumes "fs path = Unreadable FileNotFoundError"
  shows "read_lines fs path s c out = (out @ ''File '' @ path @ '' not found.'' @ newline, Returned)"
  using assms by (simp add: read_lines_unreadable)

theorem read_lines_not_found_witness:
  "example_fs ''missing.txt'' = Unreadable FileNotFoundError
   \<and> read_lines example_fs ''missing.txt'' 1 1 [] = (''File missing.txt not found.\<newline>'', Returned)"
proof -
  have h: "example_fs ''missing.txt'' = Unreadable FileNotFoundError"
    by (simp add: example_fs_def)
  show ?thesis
    using h read_lines_not_found [of example_fs "''missing.txt''" 1 1 "[]", OF h]
    by (simp add: newline_def)
qed

subsection \<open>A count of zero\<close>

text \<open>
  C5. For an existing file with \<open>N\<close> lines and a start line \<open>s\<close> with \<open>1 \<le> s \<le> N\<close>,
  \<^verbatim>\<open>read_lines(path, s, 0)\<close> writes nothing, neither a line of the file nor a
  diagnostic: the standard output is as before the call.
\<close>

theorem read_lines_count_zero:
  assumes "fs path = Readable lines" "1 \<le> s" "s \<le> int (length lines)"
  shows "read_lines fs path s 0 out = (out, Returned)"
proof -
  have "read_lines fs path s 0 out = print_loop lines (s - 1) (min (s - 1 + 0) (int (length lines))) out"
    using assms by (simp add: read_lines_loop)
  also have "\<dots> = (out, Returned)"
    using assms by (simp add: print_loop.simps [of lines "s - 1" "s - 1" out])
  finally show ?thesis .
qed

theorem read_lines_count_zero_witness:
  "example_fs ''a.txt'' = Readable [''one\<newline>'', ''two\<newline>'', ''three\<newline>'']
   \<and> (1::int) \<le> 3 \<and> (3::int) \<le> int (length [''one\<newline>'', ''two\<newline>'', ''three\<newline>''])
   \<and> read_lines example_fs ''a.txt'' 3 0 [] = ([], Returned)"
proof -
  have h: "example_fs ''a.txt'' = Readable [''one\<newline>'', ''two\<newline>'', ''three\<newline>'']"
    by (simp add: example_fs_def)
  show ?thesis
    using h read_lines_count_zero [of example_fs "''a.txt''" _ 3 "[]", OF h] by simp
qed

subsection \<open>Determinism\<close>

text \<open>
  C6. Two calls of \<^verbatim>\<open>read_lines\<close> with the same arguments, on file systems in which
  the file at the path reads the same, started on the same standard output, write the
  same text and end the same way. Nothing but the arguments and that one file decides
  the result.
\<close>

theorem read_lines_deterministic:
  assumes "fs path = fs' path"
  shows "read_lines fs path s c out = read_lines fs' path s c out"
  using assms by (simp add: read_lines_def read_lines_body_def)

theorem read_lines_deterministic_witness:
  "example_fs ''a.txt'' = (example_fs(''b.txt'' := Readable [])) ''a.txt''
   \<and> read_lines example_fs ''a.txt'' 2 1 [] =
       read_lines (example_fs(''b.txt'' := Readable [])) ''a.txt'' 2 1 []"
  using read_lines_deterministic [of example_fs "''a.txt''" "example_fs(''b.txt'' := Readable [])" 2 1 "[]"]
  by simp

subsection \<open>The empty file\<close>

text \<open>
  C9. For an existing file with no lines, every start line \<open>s \<ge> 1\<close> and every count
  \<open>c \<ge> 0\<close>, also \<open>s = 1\<close> with \<open>c = 0\<close>, \<^verbatim>\<open>read_lines\<close> writes the line
  \<^verbatim>\<open>Start line {s} is beyond file length.\<close> and nothing else.
\<close>

theorem read_lines_empty_file:
  assumes "fs path = Readable []" "1 \<le> s" "0 \<le> c"
  shows "read_lines fs path s c out =
     (out @ ''Start line '' @ str s @ '' is beyond file length.'' @ newline, Returned)"
  using assms by (simp add: read_lines_beyond)

theorem read_lines_empty_file_witness:
  "example_fs ''empty.txt'' = Readable [] \<and> (1::int) \<le> 1 \<and> (0::int) \<le> 0
   \<and> read_lines example_fs ''empty.txt'' 1 0 [] =
       (''Start line 1 is beyond file length.\<newline>'', Returned)"
proof -
  have h: "example_fs ''empty.txt'' = Readable []"
    by (simp add: example_fs_def)
  show ?thesis
    using h read_lines_empty_file [of example_fs "''empty.txt''" 1 0 "[]", OF h]
    by (simp add: str_def digits_small digit_def newline_def)
qed


subsection \<open>The script and its arguments\<close>

text \<open>
  The script by the length of \<^verbatim>\<open>sys.argv\<close>: below three the usage line, exactly three
  an exception, four or more the call of \<^verbatim>\<open>read_lines\<close> on the entries 1, 2 and 3.
\<close>

lemma main_usage:
  "length argv < 3 \<Longrightarrow> main to_int fs argv out = (out @ usage @ newline, Returned)"
  by (simp add: main_def print_def)

lemma main_three:
  "length argv = 3 \<Longrightarrow>
   main to_int fs argv out =
     (case to_int (argv ! 2) of
        None \<Rightarrow> (out, Raised ValueError)
      | Some start_line \<Rightarrow> (out, Raised IndexError))"
  by (simp add: main_def subscript_def split: option.split)

lemma main_four:
  "4 \<le> length argv \<Longrightarrow>
   main to_int fs argv out =
     (case to_int (argv ! 2) of
        None \<Rightarrow> (out, Raised ValueError)
      | Some start_line \<Rightarrow>
          (case to_int (argv ! 3) of
             None \<Rightarrow> (out, Raised ValueError)
           | Some num_lines \<Rightarrow> read_lines fs (argv ! 1) start_line num_lines out))"
  by (simp add: main_def subscript_def split: option.split)

text \<open>
  C4. A run with fewer than three arguments after the program name is to print the
  usage line and do nothing else. With none or one the script does so
  (\<open>main_usage\<close>). With two, the test \<^verbatim>\<open>len(sys.argv) < 3\<close> is false, since
  \<^verbatim>\<open>sys.argv\<close> counts the program name, and \<^verbatim>\<open>sys.argv[3]\<close> raises
  \<^verbatim>\<open>IndexError\<close>: nothing is printed (\<open>main_three\<close>). Here is that run with the
  arguments \<^verbatim>\<open>a.txt 1\<close>.
\<close>

theorem main_two_arguments:
  "main decimal example_fs [''read_lines.py'', ''a.txt'', ''1''] [] = ([], Raised IndexError)"
  by code_simp

text \<open>
  C7. Faults the program does not handle. When three or more arguments are given and
  \<^verbatim>\<open>int\<close> rejects the second or the third one, the script ends with
  \<^verbatim>\<open>ValueError\<close> and has printed nothing. When reading the file raises anything
  but \<^verbatim>\<open>FileNotFoundError\<close> (a permission error, say), \<^verbatim>\<open>read_lines\<close> ends with
  that exception and has printed nothing, and so does the script that called it.
\<close>

theorem faults_propagate:
  "(4 \<le> length argv \<and> (to_int (argv ! 2) = None \<or> to_int (argv ! 3) = None)
      \<longrightarrow> main to_int fs argv out = (out, Raised ValueError))
   \<and> (fs path = Unreadable e \<and> e \<noteq> FileNotFoundError
      \<longrightarrow> read_lines fs path s c out = (out, Raised e))
   \<and> (4 \<le> length argv' \<and> to_int (argv' ! 2) = Some s' \<and> to_int (argv' ! 3) = Some c'
        \<and> fs (argv' ! 1) = Unreadable e' \<and> e' \<noteq> FileNotFoundError
      \<longrightarrow> main to_int fs argv' out = (out, Raised e'))"
proof (intro conjI impI)
  assume "4 \<le> length argv \<and> (to_int (argv ! 2) = None \<or> to_int (argv ! 3) = None)"
  then show "main to_int fs argv out = (out, Raised ValueError)"
    by (auto simp: main_four split: option.split)
next
  assume "fs path = Unreadable e \<and> e \<noteq> FileNotFoundError"
  then show "read_lines fs path s c out = (out, Raised e)"
    by (simp add: read_lines_unreadable)
next
  assume "4 \<le> length argv' \<and> to_int (argv' ! 2) = Some s' \<and> to_int (argv' ! 3) = Some c'
      \<and> fs (argv' ! 1) = Unreadable e' \<and> e' \<noteq> FileNotFoundError"
  then show "main to_int fs argv' out = (out, Raised e')"
    by (simp add: main_four read_lines_unreadable)
qed

theorem faults_propagate_witness:
  "(4 \<le> length [''read_lines.py'', ''a.txt'', ''two'', ''2'']
     \<and> decimal ([''read_lines.py'', ''a.txt'', ''two'', ''2''] ! 2) = None)
   \<and> main decimal example_fs [''read_lines.py'', ''a.txt'', ''two'', ''2''] [] = ([], Raised ValueError)
   \<and> (example_fs ''locked.txt'' = Unreadable PermissionError \<and> PermissionError \<noteq> FileNotFoundError)
   \<and> read_lines example_fs ''locked.txt'' 1 1 [] = ([], Raised PermissionError)
   \<and> (4 \<le> length [''read_lines.py'', ''locked.txt'', ''1'', ''1'']
     \<and> decimal ([''read_lines.py'', ''locked.txt'', ''1'', ''1''] ! 2) = Some 1
     \<and> decimal ([''read_lines.py'', ''locked.txt'', ''1'', ''1''] ! 3) = Some 1)
   \<and> main decimal example_fs [''read_lines.py'', ''locked.txt'', ''1'', ''1''] [] =
       ([], Raised PermissionError)"
proof -
  have two: "decimal ''two'' = None" by code_simp
  have one: "decimal ''1'' = Some 1" by code_simp
  have locked: "example_fs ''locked.txt'' = Unreadable PermissionError"
    by (simp add: example_fs_def)
  show ?thesis
    using faults_propagate [of "[''read_lines.py'', ''a.txt'', ''two'', ''2'']" decimal
        example_fs "[]" "''locked.txt''" PermissionError 1 1
        "[''read_lines.py'', ''locked.txt'', ''1'', ''1'']" 1 1 PermissionError]
      two one locked
    by simp
qed

text \<open>
  C8. With three or more arguments after the program name only the first three are
  used: two runs whose argument vectors agree on the program name and the first three
  arguments, on the same files, write the same text and end the same way, whatever
  follows the third argument.
\<close>

theorem extra_arguments_ignored:
  assumes "4 \<le> length argv" "4 \<le> length argv'" "take 4 argv = take 4 argv'"
  shows "main to_int fs argv out = main to_int fs argv' out"
proof -
  have "argv ! k = argv' ! k" if "k < 4" for k
  proof -
    have "argv ! k = take 4 argv ! k" using that by simp
    also have "\<dots> = take 4 argv' ! k" using assms(3) by simp
    also have "\<dots> = argv' ! k" using that by simp
    finally show ?thesis .
  qed
  then have same: "argv ! 1 = argv' ! 1" "argv ! 2 = argv' ! 2" "argv ! 3 = argv' ! 3"
    by simp_all
  show ?thesis
    by (simp only: main_four [OF assms(1)] main_four [OF assms(2)] same)
qed

theorem extra_arguments_ignored_witness:
  "4 \<le> length [''read_lines.py'', ''a.txt'', ''2'', ''2'']
   \<and> 4 \<le> length [''read_lines.py'', ''a.txt'', ''2'', ''2'', ''7'', ''b.txt'']
   \<and> take 4 [''read_lines.py'', ''a.txt'', ''2'', ''2''] =
       take 4 [''read_lines.py'', ''a.txt'', ''2'', ''2'', ''7'', ''b.txt'']
   \<and> main decimal example_fs [''read_lines.py'', ''a.txt'', ''2'', ''2''] [] =
       main decimal example_fs [''read_lines.py'', ''a.txt'', ''2'', ''2'', ''7'', ''b.txt''] []
   \<and> main decimal example_fs [''read_lines.py'', ''a.txt'', ''2'', ''2'', ''7'', ''b.txt''] [] =
       (''two\<newline>three\<newline>'', Returned)"
proof -
  have run: "main decimal example_fs [''read_lines.py'', ''a.txt'', ''2'', ''2'', ''7'', ''b.txt''] [] =
      (''two\<newline>three\<newline>'', Returned)"
    by code_simp
  show ?thesis
    using extra_arguments_ignored [of "[''read_lines.py'', ''a.txt'', ''2'', ''2'']"
        "[''read_lines.py'', ''a.txt'', ''2'', ''2'', ''7'', ''b.txt'']" decimal example_fs "[]"] run
    by simp
qed


subsection \<open>A start line below one\<close>

text \<open>
  Nothing checks that the start line is at least one. For \<open>1 - N \<le> s \<le> 0\<close> the start
  index is negative and the subscripts count from the end of the list until the index
  reaches zero: the call writes the first \<open>c\<close> elements of the last \<open>1 - s\<close> lines
  followed by the file from its beginning.
\<close>

lemma read_lines_wrap:
  assumes "fs path = Readable lines" "1 - int (length lines) \<le> s" "s \<le> 0" "0 \<le> c"
  shows "read_lines fs path s c out =
     (out @ concat (take (nat c) (drop (nat (int (length lines) + s - 1)) lines @ lines)),
      Returned)"
proof -
  define n where "n = int (length lines)"
  define tail where "tail = drop (nat (n + s - 1)) lines"
  have len: "int (length tail) = 1 - s"
    using assms by (simp add: tail_def n_def)
  have run: "read_lines fs path s c out = print_loop lines (s - 1) (min (s - 1 + c) n) out"
    using assms by (simp add: read_lines_loop n_def)
  have "read_lines fs path s c out = (out @ concat (take (nat c) (tail @ lines)), Returned)"
  proof (cases "s - 1 + c \<le> 0")
    case True
    then have stop: "min (s - 1 + c) n = s - 1 + c"
      using assms by (simp add: n_def)
    have "print_loop lines (s - 1) (s - 1 + c) out =
        (out @ concat (take (nat (s - 1 + c - (s - 1))) (drop (nat (n + (s - 1))) lines)), Returned)"
      unfolding n_def using assms True by (intro print_loop_back) simp_all
    moreover have "nat (s - 1 + c - (s - 1)) = nat c" by simp
    moreover have "drop (nat (n + (s - 1))) lines = tail"
      by (simp add: tail_def algebra_simps)
    ultimately have "read_lines fs path s c out = (out @ concat (take (nat c) tail), Returned)"
      using run stop by simp
    moreover have "nat c \<le> length tail"
      using True len by linarith
    ultimately show ?thesis by simp
  next
    case False
    have pos: "0 \<le> min (s - 1 + c) n"
      using False by (simp add: n_def)
    have "print_loop lines (s - 1) 0 out =
        (out @ concat (take (nat (0 - (s - 1))) (drop (nat (n + (s - 1))) lines)), Returned)"
      unfolding n_def using assms by (intro print_loop_back) simp_all
    moreover have "drop (nat (n + (s - 1))) lines = tail"
      by (simp add: tail_def algebra_simps)
    moreover have "length tail \<le> nat (0 - (s - 1))"
      using len by linarith
    ultimately have behind: "print_loop lines (s - 1) 0 out = (out @ concat tail, Returned)"
      by simp
    have front: "print_loop lines 0 (min (s - 1 + c) n) (out @ concat tail) =
        ((out @ concat tail) @ concat (take (nat (min (s - 1 + c) n - 0)) (drop (nat 0) lines)),
         Returned)"
      unfolding n_def by (intro print_loop_front) simp_all
    have clip: "take (nat (min (s - 1 + c) n)) lines = take (nat (s - 1 + c)) lines"
      by (cases "s - 1 + c \<le> n") (simp_all add: min_def n_def)
    have "print_loop lines (s - 1) (min (s - 1 + c) n) out =
        print_loop lines 0 (min (s - 1 + c) n) (out @ concat tail)"
      using print_loop_split [of "s - 1" 0 "min (s - 1 + c) n" lines out] assms(3) pos behind
      by simp
    also have "\<dots> = (out @ concat tail @ concat (take (nat (s - 1 + c)) lines), Returned)"
      using front clip by simp
    finally have "read_lines fs path s c out =
        (out @ concat (tail @ take (nat (s - 1 + c)) lines), Returned)"
      using run by simp
    moreover have "take (nat c) (tail @ lines) = tail @ take (nat (s - 1 + c)) lines"
    proof -
      have "nat c - length tail = nat (s - 1 + c)" "length tail \<le> nat c"
        using len False by linarith+
      then show ?thesis by simp
    qed
    ultimately show ?thesis by simp
  qed
  then show ?thesis
    by (simp add: tail_def n_def)
qed

text \<open>
  C10. For an existing file with \<open>N \<ge> 1\<close> lines and a count \<open>c \<ge> 1\<close>,
  \<^verbatim>\<open>read_lines(path, 0, c)\<close> first writes line \<open>N\<close>, the last line, and then the lines
  \<open>1\<close> to \<open>c - 1\<close> from the beginning (as many of them as the file has). More
  generally, for \<open>1 - N \<le> s \<le> 0\<close> the first line written is line \<open>N + s\<close> of the file,
  the next \<open>c - 1\<close> are taken from the lines after it followed by the file from its
  beginning, and the call returns normally: no diagnostic and no exception.
\<close>

theorem read_lines_start_below_one:
  assumes "fs path = Readable lines" "lines \<noteq> []" "1 \<le> c"
  shows "read_lines fs path 0 c out =
           (out @ last lines @ concat (take (nat (c - 1)) lines), Returned)
       \<and> (1 - int (length lines) \<le> s \<and> s \<le> 0 \<longrightarrow>
           read_lines fs path s c out =
             (out @ lines ! nat (int (length lines) + s - 1)
                  @ concat (take (nat (c - 1)) (drop (nat (int (length lines) + s)) lines @ lines)),
              Returned))"
proof -
  have general: "read_lines fs path t c out =
      (out @ lines ! nat (int (length lines) + t - 1)
           @ concat (take (nat (c - 1)) (drop (nat (int (length lines) + t)) lines @ lines)),
       Returned)"
    if "1 - int (length lines) \<le> t" "t \<le> 0" for t
  proof -
    have "nat (int (length lines) + t - 1) < length lines"
      using that assms(2) by (simp add: nat_less_iff)
    then have "drop (nat (int (length lines) + t - 1)) lines =
        lines ! nat (int (length lines) + t - 1) # drop (Suc (nat (int (length lines) + t - 1))) lines"
      by (simp add: Cons_nth_drop_Suc)
    moreover have "Suc (nat (int (length lines) + t - 1)) = nat (int (length lines) + t)"
      using that by simp
    moreover have "nat c = Suc (nat (c - 1))"
      using assms(3) by simp
    ultimately have "take (nat c) (drop (nat (int (length lines) + t - 1)) lines @ lines) =
        lines ! nat (int (length lines) + t - 1) #
        take (nat (c - 1)) (drop (nat (int (length lines) + t)) lines @ lines)"
      by simp
    moreover have "read_lines fs path t c out =
        (out @ concat (take (nat c) (drop (nat (int (length lines) + t - 1)) lines @ lines)),
         Returned)"
      using assms that by (intro read_lines_wrap) simp_all
    ultimately show ?thesis by simp
  qed
  have nonempty: "1 \<le> int (length lines)"
    using assms(2) by (cases lines) simp_all
  have "read_lines fs path 0 c out =
      (out @ lines ! nat (int (length lines) + 0 - 1)
           @ concat (take (nat (c - 1)) (drop (nat (int (length lines) + 0)) lines @ lines)),
       Returned)"
    using nonempty by (intro general) simp_all
  moreover have "nat (int (length lines) + 0 - 1) = length lines - 1"
    using nonempty by linarith
  then have "lines ! nat (int (length lines) + 0 - 1) = last lines"
    using assms(2) by (simp add: last_conv_nth)
  ultimately have "read_lines fs path 0 c out =
      (out @ last lines @ concat (take (nat (c - 1)) lines), Returned)"
    by simp
  with general show ?thesis by blast
qed

theorem read_lines_start_below_one_witness:
  "example_fs ''a.txt'' = Readable [''one\<newline>'', ''two\<newline>'', ''three\<newline>'']
   \<and> [''one\<newline>'', ''two\<newline>'', ''three\<newline>''] \<noteq> [] \<and> (1::int) \<le> 3
   \<and> 1 - int (length [''one\<newline>'', ''two\<newline>'', ''three\<newline>'']) \<le> - 1 \<and> (- 1::int) \<le> 0
   \<and> read_lines example_fs ''a.txt'' 0 3 [] = (''three\<newline>one\<newline>two\<newline>'', Returned)
   \<and> read_lines example_fs ''a.txt'' (- 1) 3 [] = (''two\<newline>three\<newline>one\<newline>'', Returned)"
proof -
  have h: "example_fs ''a.txt'' = Readable [''one\<newline>'', ''two\<newline>'', ''three\<newline>'']"
    by (simp add: example_fs_def)
  show ?thesis
    using h read_lines_start_below_one [of example_fs "''a.txt''" _ 3 "[]" "- 1", OF h]
    by simp
qed

end
